theory Spec2Isabelle
  imports Complex_Main "HOL-Library.Multiset"
begin

section \<open>Data model of the two spot-pricing scripts\<close>

text \<open>
  The repository holds two scripts, \<^verbatim>\<open>cpu-spot-pricing.py\<close> and
  \<^verbatim>\<open>gpu-spot-pricing.py\<close>. Both declare the same frozen class \<^verbatim>\<open>Pricing\<close>,
  the same coroutine \<^verbatim>\<open>query_region\<close> (up to the filter sent to the remote query) and a
  coroutine \<^verbatim>\<open>main\<close> whose receive loop differs in the price ceiling it applies.

  Exceptions are values: every \<^verbatim>\<open>raise\<close> of the source and of the builtins it calls is
  an \<open>Inl\<close> of the type \<open>error\<close>. \<open>FetchError\<close> stands for any exception that leaves
  the paginator of the remote query (transport, authentication, throttling).

  Python floats are modelled by exact reals: the rounding of IEEE doubles is not part of
  the model, and the constants \<^verbatim>\<open>1.2\<close>, \<^verbatim>\<open>0.49\<close> and \<^verbatim>\<open>2.35\<close> stand for the decimal
  numbers written in the source.
\<close>

datatype error = KeyError string | ValueError string | IndexError | FetchError

record Pricing =
  instance_type :: string
  zone_id :: string
  spot_price :: real

datatype InstanceFamily = G5 | G6E

type_synonym SpotPriceTypeDef = "string \<rightharpoonup> string"

subsection \<open>The converter \<^verbatim>\<open>float\<close> of the field \<^verbatim>\<open>spot_price\<close>\<close>

text \<open>
  \<^verbatim>\<open>spot_price: float = field(converter=float)\<close> applies the builtin \<^verbatim>\<open>float\<close> to the
  string of the raw record. The model covers the plain decimal spelling the provider
  sends: an optional sign, digits, and an optional fraction (\<^verbatim>\<open>1\<close>, \<^verbatim>\<open>-1.0\<close>,
  \<^verbatim>\<open>0.123400\<close>, \<^verbatim>\<open>.5\<close>, \<^verbatim>\<open>7.\<close>). Every other string is a \<^verbatim>\<open>ValueError\<close> in the
  model; of those, Python accepts the spellings with an exponent, with underscores between
  digits, with surrounding white space, and the words \<^verbatim>\<open>inf\<close> and \<^verbatim>\<open>nan\<close>, which are
  outside the model.
\<close>

definition is_digit :: "char \<Rightarrow> bool" where
  "is_digit c = (c \<in> set ''0123456789'')"

definition digits_val :: "string \<Rightarrow> nat" where
  "digits_val ds = foldl (\<lambda>n c. 10 * n + (of_char c - 48)) 0 ds"

definition float_sign :: "string \<Rightarrow> bool \<times> string" where
  "float_sign s =
     (case s of
        [] \<Rightarrow> (False, s)
      | c # t \<Rightarrow> if c = CHR ''-'' then (True, t)
                 else if c = CHR ''+'' then (False, t) else (False, s))"

definition float_abs :: "string \<Rightarrow> real option" where
  "float_abs body =
     (let ip = takeWhile is_digit body;
          rest = dropWhile is_digit body;
          fp = (case rest of
                  [] \<Rightarrow> Some []
                | c # t \<Rightarrow> if c = CHR ''.'' \<and> list_all is_digit t then Some t else None)
      in case fp of
           None \<Rightarrow> None
         | Some f \<Rightarrow>
             if ip = [] \<and> f = [] then None
             else Some (real (digits_val ip) + real (digits_val f) / 10 ^ length f))"

definition float_conv :: "string \<Rightarrow> real option" where
  "float_conv s =
     (case float_sign s of
        (neg, body) \<Rightarrow>
          (case float_abs body of
             None \<Rightarrow> None
           | Some v \<Rightarrow> Some (if neg then - v else v)))"

subsection \<open>\<^verbatim>\<open>Pricing.from_dict\<close>\<close>

text \<open>
  \<^verbatim>\<open>cls(instance_type=data["InstanceType"], zone_id=data["AvailabilityZoneId"],
  spot_price=data["SpotPrice"])\<close>: the three subscripts are evaluated from left to right,
  each raising \<^verbatim>\<open>KeyError\<close> on an absent key, and the attrs initialiser then runs the
  converter.
\<close>

definition from_dict :: "SpotPriceTypeDef \<Rightarrow> error + Pricing" where
  "from_dict data =
     (case data ''InstanceType'' of
        None \<Rightarrow> Inl (KeyError ''InstanceType'')
      | Some it \<Rightarrow>
          (case data ''AvailabilityZoneId'' of
             None \<Rightarrow> Inl (KeyError ''AvailabilityZoneId'')
           | Some z \<Rightarrow>
               (case data ''SpotPrice'' of
                  None \<Rightarrow> Inl (KeyError ''SpotPrice'')
                | Some p \<Rightarrow>
                    (case float_conv p of
                       None \<Rightarrow> Inl (ValueError p)
                     | Some x \<Rightarrow>
                         Inr \<lparr>instance_type = it, zone_id = z, spot_price = x\<rparr>))))"

subsection \<open>Derived attributes of the GPU script\<close>

text \<open>\<^verbatim>\<open>str.split(sep)\<close> with a one-character separator: never the empty list.\<close>

fun str_split :: "char \<Rightarrow> string \<Rightarrow> string list" where
  "str_split sep [] = [[]]"
| "str_split sep (c # cs) =
     (if c = sep then [] # str_split sep cs
      else (case str_split sep cs of
              [] \<Rightarrow> [[c]]
            | w # ws \<Rightarrow> (c # w) # ws))"

text \<open>
  \<^verbatim>\<open>InstanceFamily\<close> is a \<^verbatim>\<open>StrEnum\<close> whose members are declared with \<^verbatim>\<open>auto()\<close>:
  their values are the lower-cased member names \<^verbatim>\<open>g5\<close> and \<^verbatim>\<open>g6e\<close>. Calling the
  enumeration on any other string raises \<^verbatim>\<open>ValueError\<close>.
\<close>

definition InstanceFamily_of :: "string \<Rightarrow> error + InstanceFamily" where
  "InstanceFamily_of v =
     (if v = ''g5'' then Inr G5 else if v = ''g6e'' then Inr G6E else Inl (ValueError v))"

definition instance_family :: "Pricing \<Rightarrow> error + InstanceFamily" where
  "instance_family p =
     (case str_split (CHR ''.'') (instance_type p) of
        [] \<Rightarrow> Inl IndexError
      | f # _ \<Rightarrow> InstanceFamily_of f)"

definition instance_size :: "Pricing \<Rightarrow> error + string" where
  "instance_size p =
     (case str_split (CHR ''.'') (instance_type p) of
        _ # sz # _ \<Rightarrow> Inr sz
      | _ \<Rightarrow> Inl IndexError)"

definition gpu_count :: "Pricing \<Rightarrow> error + int" where
  "gpu_count p =
     (case instance_size p of
        Inl e \<Rightarrow> Inl e
      | Inr sz \<Rightarrow>
          if sz \<in> set [''xlarge'', ''2xlarge'', ''4xlarge'', ''8xlarge'', ''16xlarge''] then Inr 1
          else if sz \<in> set [''12xlarge'', ''24xlarge''] then Inr 4
          else if sz = ''48xlarge'' then Inr 8
          else Inl (ValueError (instance_type p)))"

subsection \<open>The bodies of the two receive loops\<close>

definition MAX_PRICE :: real where
  "MAX_PRICE = 1.2"

definition G6E_G5_PERF_RATIO :: real where
  "G6E_G5_PERF_RATIO = 2.35"

definition MAX_PRICE_PER_GPU_HOUR :: real where
  "MAX_PRICE_PER_GPU_HOUR = 0.49"

text \<open>
  A loop body returns \<open>Inr True\<close> when it calls \<^verbatim>\<open>print(pricing)\<close>, \<open>Inr False\<close> when it
  does not, and \<open>Inl e\<close> when it raises \<open>e\<close>. In the GPU script \<^verbatim>\<open>pricing.gpu_count\<close> is
  evaluated before \<^verbatim>\<open>pricing.instance_family\<close>.
\<close>

definition body_cpu :: "Pricing \<Rightarrow> error + bool" where
  "body_cpu pricing = Inr (spot_price pricing \<le> MAX_PRICE)"

definition body_gpu :: "Pricing \<Rightarrow> error + bool" where
  "body_gpu pricing =
     (case gpu_count pricing of
        Inl e \<Rightarrow> Inl e
      | Inr n \<Rightarrow>
          (let max_price = of_int n * MAX_PRICE_PER_GPU_HOUR
           in case instance_family pricing of
                Inl e \<Rightarrow> Inl e
              | Inr G5 \<Rightarrow> Inr (spot_price pricing \<le> max_price / G6E_G5_PERF_RATIO)
              | Inr G6E \<Rightarrow> Inr (spot_price pricing \<le> max_price)))"


section \<open>The concurrent pipeline\<close>

text \<open>
  \<^verbatim>\<open>main\<close> creates a memory object stream (anyio, buffer size 0), starts one
  \<^verbatim>\<open>query_region\<close> task per region in a task group, each with its own clone of the send
  stream, closes its own send stream and then iterates over the receive stream.

  The remote source is an input of the model: for each region the list of what the
  paginator yields, in order, a page of raw records or a failure.
\<close>

datatype fetch = Page "SpotPriceTypeDef list" | FetchFails

text \<open>
  A task is \<open>Active ds fs\<close> while it runs inside its \<^verbatim>\<open>async with\<close> block: \<open>ds\<close> are
  the raw records of the current page not yet decoded (\<^verbatim>\<open>map(Pricing.from_dict, ...)\<close> is
  lazy: a record is decoded when the \<^verbatim>\<open>for\<close> loop asks for it) and \<open>fs\<close> is what the
  paginator has still to yield. A task leaves the block by returning (\<open>Finished\<close>), by
  an exception of its own (\<open>Raised\<close>) or by cancellation (\<open>Cancelled\<close>); the block's exit
  closes the task's clone of the send stream on each of the three paths.
\<close>

datatype task = Active "SpotPriceTypeDef list" "fetch list" | Finished | Raised error | Cancelled

text \<open>
  The host task (the body of \<^verbatim>\<open>main\<close>) is \<open>Receiving\<close> inside \<^verbatim>\<open>async for\<close>;
  the loop ends at \<open>EndOfStream\<close> when no send stream is open any more and no exception
  is pending; the loop body may raise (\<open>HostRaised\<close>); and the task group stops the host
  when a child task raises (\<open>HostCancelled\<close>).

  The way of an exception to the task group is one step of the model: the cancellation
  reaches the other tasks and the host at once. What they could still do in the run-time
  between the raise and the delivery of the cancellation (while the raising task closes
  its client) is not modelled; in particular a host that first sees the end of the stream,
  because the raising task held the last open clone, and then meets the exception group at
  the task group's exit, is \<open>HostCancelled\<close> too. Neither prints anything more, and both
  end \<^verbatim>\<open>main\<close> with the child's exception.
\<close>

datatype host = Receiving | EndOfStream | HostRaised error | HostCancelled

record state =
  tasks :: "task list"
  open_send_channels :: nat
  host :: host
  received :: "Pricing list"
  printed :: "Pricing list"

fun is_Active :: "task \<Rightarrow> bool" where
  "is_Active (Active ds fs) = True"
| "is_Active t = False"

subsection \<open>What the task group and the stream do\<close>

text \<open>
  \<^verbatim>\<open>MemoryObjectSendStream.close\<close> decrements the stream's count of open send channels.
\<close>

definition close_send :: "state \<Rightarrow> state" where
  "close_send s = s\<lparr>open_send_channels := open_send_channels s - 1\<rparr>"

text \<open>
  Cancelling the task group's scope: every task still inside its block unwinds with a
  cancellation, which closes its clone.
\<close>

fun cancel_tasks :: "task list \<Rightarrow> state \<Rightarrow> state" where
  "cancel_tasks [] s = s"
| "cancel_tasks (t # ts) s =
     (let s' = cancel_tasks ts s
      in if is_Active t then close_send (s'\<lparr>tasks := Cancelled # tasks s'\<rparr>)
         else s'\<lparr>tasks := t # tasks s'\<rparr>)"

definition cancel_scope :: "state \<Rightarrow> state" where
  "cancel_scope s = cancel_tasks (tasks s) (s\<lparr>tasks := []\<rparr>)"

text \<open>Task \<open>i\<close> returns: its clone closes; the receiver sees the end once none is open.\<close>

definition task_return :: "nat \<Rightarrow> state \<Rightarrow> state" where
  "task_return i s =
     (let s' = close_send (s\<lparr>tasks := (tasks s)[i := Finished]\<rparr>)
      in if open_send_channels s' = 0 then s'\<lparr>host := EndOfStream\<rparr> else s')"

text \<open>
  Task \<open>i\<close> raises \<open>e\<close>: nothing in \<^verbatim>\<open>query_region\<close> or \<^verbatim>\<open>main\<close> catches it, so it
  reaches the task group, which cancels its scope: the other tasks and the host.
\<close>

definition task_raise :: "error \<Rightarrow> nat \<Rightarrow> state \<Rightarrow> state" where
  "task_raise e i s =
     (cancel_scope (close_send (s\<lparr>tasks := (tasks s)[i := Raised e]\<rparr>)))\<lparr>host := HostCancelled\<rparr>"

text \<open>
  The host receives \<open>pricing\<close> and runs the loop body on it. An exception of the body is
  not caught either: it leaves \<^verbatim>\<open>main\<close>'s block and the task group cancels the tasks.
\<close>

definition receive :: "(Pricing \<Rightarrow> error + bool) \<Rightarrow> Pricing \<Rightarrow> state \<Rightarrow> state" where
  "receive body pricing s =
     (let s' = s\<lparr>received := received s @ [pricing]\<rparr>
      in case body pricing of
           Inl e \<Rightarrow> (cancel_scope s')\<lparr>host := HostRaised e\<rparr>
         | Inr True \<Rightarrow> s'\<lparr>printed := printed s' @ [pricing]\<rparr>
         | Inr False \<Rightarrow> s')"

subsection \<open>\<^verbatim>\<open>query_region\<close>, one step at a time\<close>

text \<open>
  One step of task \<open>i\<close>, chosen by the scheduler. With the current page exhausted the task
  asks the paginator for the next page, which ends the pagination, yields a page or
  raises. Otherwise it decodes the next raw record and sends it; with buffer size 0 the
  send completes when the host receives the record, so sending and receiving are one step.
  A task that is not active, and an index that names no task, leave the state as it is.
\<close>

fun task_step :: "(Pricing \<Rightarrow> error + bool) \<Rightarrow> nat \<Rightarrow> state \<Rightarrow> task \<Rightarrow> state" where
  "task_step body i s (Active [] []) = task_return i s"
| "task_step body i s (Active [] (Page ds # fs)) = s\<lparr>tasks := (tasks s)[i := Active ds fs]\<rparr>"
| "task_step body i s (Active [] (FetchFails # fs)) = task_raise FetchError i s"
| "task_step body i s (Active (d # ds) fs) =
     (case from_dict d of
        Inl e \<Rightarrow> task_raise e i s
      | Inr pricing \<Rightarrow> receive body pricing (s\<lparr>tasks := (tasks s)[i := Active ds fs]\<rparr>))"
| "task_step body i s t = s"

definition query_region_step :: "(Pricing \<Rightarrow> error + bool) \<Rightarrow> nat \<Rightarrow> state \<Rightarrow> state" where
  "query_region_step body i s =
     (if length (tasks s) \<le> i then s else task_step body i s (tasks s ! i))"

fun run :: "(Pricing \<Rightarrow> error + bool) \<Rightarrow> nat list \<Rightarrow> state \<Rightarrow> state" where
  "run body [] s = s"
| "run body (i # sched) s = run body sched (query_region_step body i s)"

subsection \<open>\<^verbatim>\<open>main\<close>\<close>

text \<open>
  \<^verbatim>\<open>create_memory_object_stream\<close> opens one send channel; each
  \<^verbatim>\<open>tg.start_soon(query_region, region, send_stream.clone())\<close> opens one more and adds a
  task; \<^verbatim>\<open>await send_stream.aclose()\<close> closes the first. No task runs before that
  \<^verbatim>\<open>await\<close>. With no region at all the loop sees the end of the stream at once.
\<close>

definition create_memory_object_stream :: state where
  "create_memory_object_stream =
     \<lparr>tasks = [], open_send_channels = 1, host = Receiving, received = [], printed = []\<rparr>"

definition start_soon :: "state \<Rightarrow> fetch list \<Rightarrow> state" where
  "start_soon s region =
     s\<lparr>tasks := tasks s @ [Active [] region],
       open_send_channels := Suc (open_send_channels s)\<rparr>"

definition main_start :: "fetch list list \<Rightarrow> state" where
  "main_start regions =
     (let s = close_send (foldl start_soon create_memory_object_stream regions)
      in if open_send_channels s = 0 then s\<lparr>host := EndOfStream\<rparr> else s)"

definition main_cpu :: "nat list \<Rightarrow> fetch list list \<Rightarrow> state" where
  "main_cpu sched regions = run body_cpu sched (main_start regions)"

definition main_gpu :: "nat list \<Rightarrow> fetch list list \<Rightarrow> state" where
  "main_gpu sched regions = run body_gpu sched (main_start regions)"

text \<open>
  The exceptions that leave \<^verbatim>\<open>main\<close> when the task group exits (as one exception
  group): those of the tasks and that of the loop body. \<^verbatim>\<open>main\<close> returns normally
  exactly when the list is empty and the loop has ended.
\<close>

fun task_errors :: "task list \<Rightarrow> error list" where
  "task_errors [] = []"
| "task_errors (Raised e # ts) = e # task_errors ts"
| "task_errors (t # ts) = task_errors ts"

definition errors :: "state \<Rightarrow> error list" where
  "errors s = (case host s of HostRaised e \<Rightarrow> [e] | _ \<Rightarrow> []) @ task_errors (tasks s)"


text \<open>A raw record with its three fields present.\<close>

abbreviation raw :: "string \<Rightarrow> string \<Rightarrow> string \<Rightarrow> SpotPriceTypeDef" where
  "raw it z p \<equiv> [''InstanceType'' \<mapsto> it, ''AvailabilityZoneId'' \<mapsto> z, ''SpotPrice'' \<mapsto> p]"

section \<open>Invariants of the pipeline\<close>

text \<open>What has been printed is what the loop body accepted among the records received.\<close>

definition accepted_inv :: "(Pricing \<Rightarrow> error + bool) \<Rightarrow> state \<Rightarrow> bool" where
  "accepted_inv body s = (printed s = filter (\<lambda>p. body p = Inr True) (received s))"

text \<open>
  The count of open send channels is the number of tasks still inside their block; the
  host receives while some task is active; it sees the end of the stream only when every
  task has returned; after an exception no task is active.
\<close>

definition consistent :: "state \<Rightarrow> bool" where
  "consistent s =
     (open_send_channels s = length (filter is_Active (tasks s)) \<and>
      (case host s of
         Receiving \<Rightarrow>
           (\<exists>t\<in>set (tasks s). is_Active t) \<and> (\<forall>t\<in>set (tasks s). is_Active t \<or> t = Finished)
       | EndOfStream \<Rightarrow> (\<forall>t\<in>set (tasks s). t = Finished)
       | HostRaised e \<Rightarrow>
           (\<forall>t\<in>set (tasks s). \<not> is_Active t) \<and> task_errors (tasks s) = [] \<and>
           Cancelled \<in> set (tasks s)
       | HostCancelled \<Rightarrow>
           (\<forall>t\<in>set (tasks s). \<not> is_Active t) \<and> (\<exists>e. task_errors (tasks s) = [e])))"

text \<open>
  The raw records a task has still to deliver, and the bookkeeping that none is lost while
  no exception has been raised.
\<close>

fun page_records :: "fetch \<Rightarrow> SpotPriceTypeDef list" where
  "page_records (Page ds) = ds"
| "page_records FetchFails = []"

definition region_records :: "fetch list \<Rightarrow> SpotPriceTypeDef list" where
  "region_records fs = concat (map page_records fs)"

fun pending :: "task \<Rightarrow> SpotPriceTypeDef list" where
  "pending (Active ds fs) = ds @ region_records fs"
| "pending t = []"

definition in_flight :: "task list \<Rightarrow> (error + Pricing) multiset" where
  "in_flight ts = (\<Sum>t\<leftarrow>ts. mset (map from_dict (pending t)))"

definition conserved :: "(error + Pricing) multiset \<Rightarrow> state \<Rightarrow> bool" where
  "conserved M s =
     (host s = Receiving \<or> host s = EndOfStream \<longrightarrow>
        mset (map Inr (received s)) + in_flight (tasks s) = M)"

section \<open>Basic facts about the model\<close>

lemmas float_eval = float_conv_def float_sign_def float_abs_def is_digit_def digits_val_def

lemma str_split_no_sep: "sep \<notin> set s \<Longrightarrow> str_split sep s = [s]"
  by (induction s) auto

lemma cancel_tasks_fields [simp]:
  "host (cancel_tasks ts s) = host s"
  "received (cancel_tasks ts s) = received s"
  "printed (cancel_tasks ts s) = printed s"
  by (induction ts) (simp_all add: Let_def close_send_def)

lemma cancel_tasks_tasks:
  "tasks (cancel_tasks ts s) = map (\<lambda>t. if is_Active t then Cancelled else t) ts @ tasks s"
  by (induction ts) (simp_all add: Let_def close_send_def)

lemma cancel_tasks_open:
  "open_send_channels (cancel_tasks ts s) = open_send_channels s - length (filter is_Active ts)"
  by (induction ts) (simp_all add: Let_def close_send_def)

lemma cancel_scope_fields [simp]:
  "host (cancel_scope s) = host s"
  "received (cancel_scope s) = received s"
  "printed (cancel_scope s) = printed s"
  "tasks (cancel_scope s) = map (\<lambda>t. if is_Active t then Cancelled else t) (tasks s)"
  "open_send_channels (cancel_scope s) = open_send_channels s - length (filter is_Active (tasks s))"
  by (simp_all add: cancel_scope_def cancel_tasks_tasks cancel_tasks_open)

lemma receive_printed:
  "printed (receive body p s) = (if body p = Inr True then printed s @ [p] else printed s)"
  by (auto simp: receive_def Let_def split: sum.splits bool.splits)

lemma receive_received: "received (receive body p s) = received s @ [p]"
  by (auto simp: receive_def Let_def split: sum.splits bool.splits)

lemma receive_raises:
  "body p = Inl e \<Longrightarrow>
     host (receive body p s) = HostRaised e \<and>
     tasks (receive body p s) = map (\<lambda>t. if is_Active t then Cancelled else t) (tasks s) \<and>
     open_send_channels (receive body p s) =
       open_send_channels s - length (filter is_Active (tasks s))"
  by (simp add: receive_def Let_def)

lemma receive_returns:
  "body p = Inr b \<Longrightarrow>
     host (receive body p s) = host s \<and> tasks (receive body p s) = tasks s \<and>
     open_send_channels (receive body p s) = open_send_channels s"
  by (simp add: receive_def Let_def split: bool.splits)

lemma task_raise_fields [simp]:
  "received (task_raise e i s) = received s"
  "printed (task_raise e i s) = printed s"
  "host (task_raise e i s) = HostCancelled"
  "tasks (task_raise e i s) =
     map (\<lambda>t. if is_Active t then Cancelled else t) ((tasks s)[i := Raised e])"
  "open_send_channels (task_raise e i s) =
     open_send_channels s - 1 - length (filter is_Active ((tasks s)[i := Raised e]))"
  by (simp_all add: task_raise_def close_send_def)

lemma task_return_fields [simp]:
  "received (task_return i s) = received s"
  "printed (task_return i s) = printed s"
  "tasks (task_return i s) = (tasks s)[i := Finished]"
  "open_send_channels (task_return i s) = open_send_channels s - 1"
  "host (task_return i s) = (if open_send_channels s - 1 = 0 then EndOfStream else host s)"
  by (simp_all add: task_return_def close_send_def Let_def)

lemma foldl_start_soon_fields [simp]:
  "received (foldl start_soon s rs) = received s"
  "printed (foldl start_soon s rs) = printed s"
  "host (foldl start_soon s rs) = host s"
  "tasks (foldl start_soon s rs) = tasks s @ map (Active []) rs"
  "open_send_channels (foldl start_soon s rs) = open_send_channels s + length rs"
  by (induction rs arbitrary: s) (simp_all add: start_soon_def)

lemma main_start_fields [simp]:
  "received (main_start regions) = []"
  "printed (main_start regions) = []"
  "tasks (main_start regions) = map (Active []) regions"
  "open_send_channels (main_start regions) = length regions"
  "host (main_start regions) = (if regions = [] then EndOfStream else Receiving)"
  by (simp_all add: main_start_def Let_def close_send_def create_memory_object_stream_def)

lemma active_task_cases:
  assumes "is_Active t"
  obtains (returns) "t = Active [] []"
    | (next_page) ds fs where "t = Active [] (Page ds # fs)"
    | (fetch_fails) fs where "t = Active [] (FetchFails # fs)"
    | (sends) d ds fs where "t = Active (d # ds) fs"
proof (cases t)
  case (Active ds fs)
  show ?thesis
  proof (cases ds)
    case Nil
    show ?thesis
    proof (cases fs)
      case Nil
      with \<open>ds = []\<close> Active show ?thesis by (intro returns) simp
    next
      case (Cons f fs')
      with \<open>ds = []\<close> Active show ?thesis
        by (cases f) (auto intro: next_page fetch_fails)
    qed
  next
    case (Cons d ds')
    with Active show ?thesis by (intro sends) simp
  qed
qed (use assms in simp_all)

subsection \<open>A state without active task does not move\<close>

lemma step_idle:
  assumes "\<forall>t\<in>set (tasks s). \<not> is_Active t"
  shows "query_region_step body i s = s"
proof (cases "length (tasks s) \<le> i")
  case True
  then show ?thesis by (simp add: query_region_step_def)
next
  case False
  with assms have "\<not> is_Active (tasks s ! i)" by simp
  then have "task_step body i s (tasks s ! i) = s"
    by (cases "tasks s ! i") simp_all
  with False show ?thesis by (simp add: query_region_step_def)
qed

lemma run_idle:
  "\<forall>t\<in>set (tasks s). \<not> is_Active t \<Longrightarrow> run body sched s = s"
  by (induction sched) (simp_all add: step_idle)

lemma not_active_cancel:
  "\<forall>t\<in>set (map (\<lambda>t. if is_Active t then Cancelled else t) ts). \<not> is_Active t"
  by auto

subsection \<open>What is printed is what the loop body accepted\<close>

lemma step_accepted_inv:
  assumes "accepted_inv body s"
  shows "accepted_inv body (query_region_step body i s)"
proof (cases "length (tasks s) \<le> i")
  case True
  then show ?thesis using assms by (simp add: query_region_step_def)
next
  case False
  have "accepted_inv body (task_step body i s t)" for t
    using assms
    by (cases "(body, i, s, t)" rule: task_step.cases)
       (auto simp: accepted_inv_def receive_printed receive_received split: sum.splits)
  with False show ?thesis by (simp add: query_region_step_def)
qed

lemma run_accepted_inv:
  "accepted_inv body s \<Longrightarrow> accepted_inv body (run body sched s)"
  by (induction sched arbitrary: s) (simp_all add: step_accepted_inv)

lemma main_accepted:
  "printed (run body sched (main_start regions)) =
     filter (\<lambda>p. body p = Inr True) (received (run body sched (main_start regions)))"
  using run_accepted_inv [of body "main_start regions" sched]
  by (simp add: accepted_inv_def)

subsection \<open>Open send channels, tasks and host agree\<close>

lemma active_update_count:
  "i < length ts \<Longrightarrow> is_Active (ts ! i) \<Longrightarrow>
     length (filter is_Active (ts[i := t])) =
       (if is_Active t then length (filter is_Active ts) else length (filter is_Active ts) - 1)"
proof (induction ts arbitrary: i)
  case Nil
  then show ?case by simp
next
  case (Cons a ts)
  show ?case
  proof (cases i)
    case 0
    with Cons.prems show ?thesis by simp
  next
    case (Suc j)
    with Cons.prems have j: "j < length ts" "is_Active (ts ! j)" by simp_all
    then have "filter is_Active ts \<noteq> []"
      by (metis filter_empty_conv nth_mem)
    then have "0 < length (filter is_Active ts)" by simp
    with Cons.IH[OF j] Suc show ?thesis by auto
  qed
qed

lemma task_errors_cancel:
  "\<forall>t\<in>set ts. is_Active t \<or> t = Finished \<Longrightarrow>
     task_errors (map (\<lambda>t. if is_Active t then Cancelled else t) ts) = []"
  by (induction ts) auto

lemma task_errors_raise:
  "i < length ts \<Longrightarrow> \<forall>t\<in>set ts. is_Active t \<or> t = Finished \<Longrightarrow>
     task_errors (map (\<lambda>t. if is_Active t then Cancelled else t) (ts[i := Raised e])) = [e]"
proof (induction ts arbitrary: i)
  case Nil
  then show ?case by simp
next
  case (Cons a ts)
  then show ?case
    by (cases i) (auto simp: task_errors_cancel)
qed

lemma consistent_main_start: "consistent (main_start regions)"
  by (cases regions) (auto simp: consistent_def filter_map comp_def)


lemma consistent_active_host:
  assumes "consistent s" and "i < length (tasks s)" and "is_Active (tasks s ! i)"
  shows "host s = Receiving"
proof -
  from assms(2,3) have "\<exists>t\<in>set (tasks s). is_Active t"
    using nth_mem by blast
  with assms(1) show ?thesis
    by (cases "host s") (auto simp: consistent_def)
qed

lemma consistent_receiving:
  assumes "consistent s" and "host s = Receiving"
  shows "open_send_channels s = length (filter is_Active (tasks s))"
    and "\<forall>t\<in>set (tasks s). is_Active t \<or> t = Finished"
  using assms by (simp_all add: consistent_def)

lemma update_all:
  assumes "\<forall>t\<in>set ts. P t" and "P u"
  shows "\<forall>t\<in>set (ts[i := u]). P t"
  using assms set_update_subset_insert [of ts i u] by auto

lemma consistent_update:
  assumes "consistent s" and "i < length (tasks s)" and "is_Active (tasks s ! i)"
  shows "consistent (s\<lparr>tasks := (tasks s)[i := Active ds fs]\<rparr>)"
proof -
  have h: "host s = Receiving" using assms by (rule consistent_active_host)
  note r = consistent_receiving [OF assms(1) h]
  have "\<forall>t\<in>set ((tasks s)[i := Active ds fs]). is_Active t \<or> t = Finished"
    using r(2) by (rule update_all) simp
  moreover have "\<exists>t\<in>set ((tasks s)[i := Active ds fs]). is_Active t"
    using assms(2) by (auto simp: set_update_memI intro!: bexI [of _ "Active ds fs"])
  ultimately show ?thesis
    using r(1) h assms(2,3) by (simp add: consistent_def active_update_count)
qed

lemma consistent_return:
  assumes "consistent s" and "i < length (tasks s)" and "is_Active (tasks s ! i)"
  shows "consistent (task_return i s)"
proof -
  have h: "host s = Receiving" using assms by (rule consistent_active_host)
  note r = consistent_receiving [OF assms(1) h]
  have cnt: "length (filter is_Active ((tasks s)[i := Finished])) = open_send_channels s - 1"
    using assms(2,3) r(1) by (simp add: active_update_count)
  have all: "\<forall>t\<in>set ((tasks s)[i := Finished]). is_Active t \<or> t = Finished"
    using r(2) by (rule update_all) simp
  show ?thesis
  proof (cases "open_send_channels s - 1 = 0")
    case True
    with cnt have "\<forall>t\<in>set ((tasks s)[i := Finished]). \<not> is_Active t"
      by (simp add: filter_empty_conv)
    with all have "\<forall>t\<in>set ((tasks s)[i := Finished]). t = Finished" by blast
    with True cnt show ?thesis by (simp add: consistent_def)
  next
    case False
    with cnt have "filter is_Active ((tasks s)[i := Finished]) \<noteq> []" by auto
    then have "\<exists>t\<in>set ((tasks s)[i := Finished]). is_Active t"
      by (simp add: filter_empty_conv)
    with False cnt all h show ?thesis by (simp add: consistent_def)
  qed
qed

lemma consistent_stopped:
  assumes "open_send_channels s' = 0" and "\<forall>t\<in>set (tasks s'). \<not> is_Active t"
    and "host s' = HostRaised e \<and> task_errors (tasks s') = [] \<and> Cancelled \<in> set (tasks s') \<or>
         host s' = HostCancelled \<and> task_errors (tasks s') = [e]"
  shows "consistent s'"
proof -
  from assms(2) have "filter is_Active (tasks s') = []"
    by (simp add: filter_empty_conv)
  with assms show ?thesis
    unfolding consistent_def by auto
qed

lemma consistent_raise:
  assumes "consistent s" and "i < length (tasks s)" and "is_Active (tasks s ! i)"
  shows "consistent (task_raise e i s)"
proof (rule consistent_stopped [where e = e])
  have h: "host s = Receiving" using assms by (rule consistent_active_host)
  note r = consistent_receiving [OF assms(1) h]
  have "length (filter is_Active ((tasks s)[i := Raised e])) = open_send_channels s - 1"
    using assms(2,3) r(1) by (simp add: active_update_count)
  then show "open_send_channels (task_raise e i s) = 0" by simp
  show "\<forall>t\<in>set (tasks (task_raise e i s)). \<not> is_Active t"
    unfolding task_raise_fields by (rule not_active_cancel)
  have "task_errors (tasks (task_raise e i s)) = [e]"
    unfolding task_raise_fields using assms(2) r(2) by (rule task_errors_raise)
  then show "host (task_raise e i s) = HostRaised e \<and>
          task_errors (tasks (task_raise e i s)) = [] \<and> Cancelled \<in> set (tasks (task_raise e i s)) \<or>
        host (task_raise e i s) = HostCancelled \<and> task_errors (tasks (task_raise e i s)) = [e]"
    by simp
qed

lemma consistent_receive:
  assumes "consistent s" and "host s = Receiving"
  shows "consistent (receive body p s)"
proof (cases "body p")
  case (Inl e)
  note r = consistent_receiving [OF assms]
  note rr = receive_raises [of body p e s, OF Inl]
  show ?thesis
  proof (rule consistent_stopped [where e = e])
    show "open_send_channels (receive body p s) = 0" using rr r(1) by simp
    show "\<forall>t\<in>set (tasks (receive body p s)). \<not> is_Active t"
      using rr not_active_cancel [of "tasks s"] by metis
    have "task_errors (tasks (receive body p s)) = []"
      using rr task_errors_cancel [OF r(2)] by metis
    moreover have "Cancelled \<in> set (tasks (receive body p s))"
    proof -
      from assms obtain t where "t \<in> set (tasks s)" "is_Active t"
        by (auto simp: consistent_def)
      then have "Cancelled \<in> set (map (\<lambda>t. if is_Active t then Cancelled else t) (tasks s))"
        by force
      with rr show ?thesis by metis
    qed
    ultimately show "host (receive body p s) = HostRaised e \<and>
          task_errors (tasks (receive body p s)) = [] \<and> Cancelled \<in> set (tasks (receive body p s)) \<or>
        host (receive body p s) = HostCancelled \<and> task_errors (tasks (receive body p s)) = [e]"
      using rr by simp
  qed
next
  case (Inr b)
  with assms receive_returns [of body p b s] show ?thesis
    by (simp add: consistent_def)
qed

lemma step_consistent:
  assumes "consistent s"
  shows "consistent (query_region_step body i s)"
proof (cases "i < length (tasks s) \<and> is_Active (tasks s ! i)")
  case False
  then have "query_region_step body i s = s"
    by (cases "tasks s ! i") (auto simp: query_region_step_def)
  with assms show ?thesis by simp
next
  case True
  then have i: "i < length (tasks s)" and a: "is_Active (tasks s ! i)" by simp_all
  have h: "host s = Receiving" using assms i a by (rule consistent_active_host)
  from a have "consistent (task_step body i s (tasks s ! i))"
  proof (cases rule: active_task_cases)
    case returns
    then show ?thesis using consistent_return [OF assms i a] by simp
  next
    case (next_page ds fs)
    then show ?thesis using consistent_update [OF assms i a] by simp
  next
    case (fetch_fails fs)
    then show ?thesis using consistent_raise [OF assms i a] by simp
  next
    case (sends d ds fs)
    show ?thesis
    proof (cases "from_dict d")
      case (Inl e)
      with sends show ?thesis using consistent_raise [OF assms i a] by simp
    next
      case (Inr p)
      have "consistent (receive body p (s\<lparr>tasks := (tasks s)[i := Active ds fs]\<rparr>))"
        using consistent_update [OF assms i a] h by (intro consistent_receive) simp_all
      with sends Inr show ?thesis by simp
    qed
  qed
  with i show ?thesis by (simp add: query_region_step_def)
qed

lemma run_consistent: "consistent s \<Longrightarrow> consistent (run body sched s)"
  by (induction sched arbitrary: s) (simp_all add: step_consistent)

lemma main_consistent: "consistent (run body sched (main_start regions))"
  by (rule run_consistent [OF consistent_main_start])


subsection \<open>No record is lost while no exception is raised\<close>

lemma in_flight_update:
  "i < length ts \<Longrightarrow>
     in_flight (ts[i := u]) + mset (map from_dict (pending (ts ! i))) =
     in_flight ts + mset (map from_dict (pending u))"
proof (induction ts arbitrary: i)
  case Nil
  then show ?case by simp
next
  case (Cons a ts)
  show ?case
  proof (cases i)
    case 0
    then show ?thesis by (simp add: in_flight_def)
  next
    case (Suc j)
    with Cons.prems have "j < length ts" by simp
    from Cons.IH [OF this] Suc show ?thesis
      by (simp add: in_flight_def add.assoc)
  qed
qed

lemma in_flight_same:
  assumes "i < length ts" and "pending u = pending (ts ! i)"
  shows "in_flight (ts[i := u]) = in_flight ts"
  using in_flight_update [OF assms(1), of u] assms(2) by simp

lemma in_flight_Finished:
  "\<forall>t\<in>set ts. t = Finished \<Longrightarrow> in_flight ts = {#}"
  by (induction ts) (simp_all add: in_flight_def)

lemma in_flight_start:
  "in_flight (map (Active []) regions) =
     mset (map from_dict (concat (map region_records regions)))"
  by (induction regions) (simp_all add: in_flight_def)

lemma conserved_main_start:
  "conserved (mset (map from_dict (concat (map region_records regions)))) (main_start regions)"
  by (simp add: conserved_def in_flight_start)

lemma step_conserved:
  assumes "conserved M s" and "consistent s"
  shows "conserved M (query_region_step body i s)"
proof (cases "i < length (tasks s) \<and> is_Active (tasks s ! i)")
  case False
  then have "query_region_step body i s = s"
    by (cases "tasks s ! i") (auto simp: query_region_step_def)
  with assms show ?thesis by simp
next
  case True
  then have i: "i < length (tasks s)" and a: "is_Active (tasks s ! i)" by simp_all
  have h: "host s = Receiving" using assms(2) i a by (rule consistent_active_host)
  with assms(1) have M: "mset (map Inr (received s)) + in_flight (tasks s) = M"
    by (simp add: conserved_def)
  from a have "conserved M (task_step body i s (tasks s ! i))"
  proof (cases rule: active_task_cases)
    case returns
    then have "in_flight ((tasks s)[i := Finished]) = in_flight (tasks s)"
      by (intro in_flight_same [OF i]) (simp add: region_records_def)
    with returns M show ?thesis by (simp add: conserved_def)
  next
    case (next_page ds fs)
    then have "in_flight ((tasks s)[i := Active ds fs]) = in_flight (tasks s)"
      by (intro in_flight_same [OF i]) (simp add: region_records_def)
    with next_page M show ?thesis by (simp add: conserved_def)
  next
    case (fetch_fails fs)
    then show ?thesis by (simp add: conserved_def)
  next
    case (sends d ds fs)
    show ?thesis
    proof (cases "from_dict d")
      case (Inl e)
      with sends show ?thesis by (simp add: conserved_def)
    next
      case (Inr p)
      let ?s = "s\<lparr>tasks := (tasks s)[i := Active ds fs]\<rparr>"
      from in_flight_update [OF i, of "Active ds fs"] sends Inr
      have u: "in_flight (tasks s) = in_flight ((tasks s)[i := Active ds fs]) + {#Inr p#}"
        by simp
      show ?thesis
      proof (cases "body p")
        case (Inl e)
        with sends \<open>from_dict d = Inr p\<close> receive_raises [of body p e ?s] show ?thesis
          by (simp add: conserved_def)
      next
        case (Inr b)
        with sends \<open>from_dict d = Inr p\<close> receive_returns [of body p b ?s] M u show ?thesis
          by (simp add: conserved_def receive_received)
      qed
    qed
  qed
  with i show ?thesis by (simp add: query_region_step_def)
qed

lemma run_conserved:
  "conserved M s \<Longrightarrow> consistent s \<Longrightarrow> conserved M (run body sched s)"
  by (induction sched arbitrary: s) (simp_all add: step_conserved step_consistent)

lemma main_complete:
  assumes "host (run body sched (main_start regions)) = EndOfStream"
  shows "mset (map Inr (received (run body sched (main_start regions)))) =
           mset (map from_dict (concat (map region_records regions)))"
proof -
  let ?s = "run body sched (main_start regions)"
  have "consistent ?s" by (rule main_consistent)
  with assms have "\<forall>t\<in>set (tasks ?s). t = Finished" by (simp add: consistent_def)
  then have "in_flight (tasks ?s) = {#}" by (rule in_flight_Finished)
  moreover have "conserved (mset (map from_dict (concat (map region_records regions)))) ?s"
    by (rule run_conserved [OF conserved_main_start consistent_main_start])
  ultimately show ?thesis using assms by (simp add: conserved_def)
qed


subsection \<open>Exceptions end the run\<close>

lemma run_append: "run body (a @ b) s = run body b (run body a s)"
  by (induction a arbitrary: s) simp_all

lemma run_snoc: "run body (a @ [i]) s = query_region_step body i (run body a s)"
  by (simp add: run_append)

lemma task_raise_stops:
  assumes "consistent s" and "i < length (tasks s)" and "is_Active (tasks s ! i)"
  shows "errors (task_raise e i s) = [e]"
    and "\<forall>t\<in>set (tasks (task_raise e i s)). \<not> is_Active t"
    and "run body sched (task_raise e i s) = task_raise e i s"
proof -
  have h: "host s = Receiving" using assms by (rule consistent_active_host)
  note r = consistent_receiving [OF assms(1) h]
  have "task_errors (tasks (task_raise e i s)) = [e]"
    unfolding task_raise_fields using assms(2) r(2) by (rule task_errors_raise)
  then show "errors (task_raise e i s) = [e]" by (simp add: errors_def)
  show n: "\<forall>t\<in>set (tasks (task_raise e i s)). \<not> is_Active t"
    unfolding task_raise_fields by (rule not_active_cancel)
  then show "run body sched (task_raise e i s) = task_raise e i s" by (rule run_idle)
qed

lemma receive_raise_stops:
  assumes "consistent s" and "host s = Receiving" and "body p = Inl e"
  shows "host (receive body p s) = HostRaised e"
    and "errors (receive body p s) = [e]"
    and "\<forall>t\<in>set (tasks (receive body p s)). \<not> is_Active t"
    and "run body' sched (receive body p s) = receive body p s"
proof -
  note r = consistent_receiving [OF assms(1,2)]
  note rr = receive_raises [where body = body and p = p and e = e and s = s, OF assms(3)]
  show "host (receive body p s) = HostRaised e" using rr by simp
  have "task_errors (tasks (receive body p s)) = []"
    using rr task_errors_cancel [OF r(2)] by metis
  with rr show "errors (receive body p s) = [e]" by (simp add: errors_def)
  show n: "\<forall>t\<in>set (tasks (receive body p s)). \<not> is_Active t"
    using rr not_active_cancel [of "tasks s"] by metis
  then show "run body' sched (receive body p s) = receive body p s" by (rule run_idle)
qed

lemma step_sends:
  assumes "i < length (tasks s)" and "tasks s ! i = Active (d # ds) fs" and "from_dict d = Inr p"
  shows "query_region_step body i s = receive body p (s\<lparr>tasks := (tasks s)[i := Active ds fs]\<rparr>)"
  using assms by (simp add: query_region_step_def)

lemma step_decode_raises:
  assumes "i < length (tasks s)" and "tasks s ! i = Active (d # ds) fs" and "from_dict d = Inl e"
  shows "query_region_step body i s = task_raise e i s"
  using assms by (simp add: query_region_step_def)

lemma step_fetch_fails:
  assumes "i < length (tasks s)" and "tasks s ! i = Active [] (FetchFails # fs)"
  shows "query_region_step body i s = task_raise FetchError i s"
  using assms by (simp add: query_region_step_def)

lemma main_task_raises:
  assumes "i < length (tasks (run body sched (main_start regions)))"
    and "is_Active (tasks (run body sched (main_start regions)) ! i)"
    and "query_region_step body i (run body sched (main_start regions)) =
           task_raise e i (run body sched (main_start regions))"
  shows "host (run body (sched @ [i]) (main_start regions)) = HostCancelled \<and>
         errors (run body (sched @ [i]) (main_start regions)) = [e] \<and>
         tasks (run body (sched @ [i]) (main_start regions)) =
           map (\<lambda>t. if is_Active t then Cancelled else t)
             ((tasks (run body sched (main_start regions)))[i := Raised e]) \<and>
         received (run body (sched @ [i]) (main_start regions)) =
           received (run body sched (main_start regions)) \<and>
         printed (run body (sched @ [i]) (main_start regions)) =
           printed (run body sched (main_start regions)) \<and>
         (\<forall>sched'. run body (sched @ i # sched') (main_start regions) =
            run body (sched @ [i]) (main_start regions))"
proof -
  let ?s = "run body sched (main_start regions)"
  have c: "consistent ?s" by (rule main_consistent)
  note t = task_raise_stops [where e = e, OF c assms(1,2)]
  have "run body (sched @ i # sched') (main_start regions) = task_raise e i ?s" for sched'
    using t(3) [where body = body and sched = sched'] assms(3) by (simp add: run_append)
  with t(1) assms(3) show ?thesis
    by (simp add: run_snoc)
qed

lemma main_body_raises:
  assumes "i < length (tasks (run body sched (main_start regions)))"
    and "tasks (run body sched (main_start regions)) ! i = Active (d # ds) fs"
    and "from_dict d = Inr p" and "body p = Inl e"
  shows "host (run body (sched @ [i]) (main_start regions)) = HostRaised e \<and>
         errors (run body (sched @ [i]) (main_start regions)) = [e] \<and>
         received (run body (sched @ [i]) (main_start regions)) =
           received (run body sched (main_start regions)) @ [p] \<and>
         printed (run body (sched @ [i]) (main_start regions)) =
           printed (run body sched (main_start regions)) \<and>
         (\<forall>t\<in>set (tasks (run body (sched @ [i]) (main_start regions))). \<not> is_Active t) \<and>
         (\<forall>sched'. run body (sched @ i # sched') (main_start regions) =
            run body (sched @ [i]) (main_start regions))"
proof -
  let ?s = "run body sched (main_start regions)"
  let ?u = "?s\<lparr>tasks := (tasks ?s)[i := Active ds fs]\<rparr>"
  have c: "consistent ?s" by (rule main_consistent)
  have a: "is_Active (tasks ?s ! i)" using assms(2) by simp
  have h: "host ?s = Receiving" using c assms(1) a by (rule consistent_active_host)
  have cu: "consistent ?u" using c assms(1) a by (rule consistent_update)
  have hu: "host ?u = Receiving" using h by simp
  note r = receive_raise_stops [where s = ?u and body = body and p = p and e = e, OF cu hu assms(4)]
  have st: "query_region_step body i ?s = receive body p ?u"
    using assms(1-3) by (rule step_sends)
  have "run body (sched @ i # sched') (main_start regions) = receive body p ?u" for sched'
    using r(4) [where body' = body and sched = sched'] st by (simp add: run_append)
  with r(1-3) st assms(4) show ?thesis
    by (simp add: run_snoc receive_printed receive_received)
qed

subsection \<open>Complete runs receive the same records\<close>

lemma mset_Inr_eq:
  assumes "mset (map (Inr :: 'b \<Rightarrow> 'a + 'b) xs) = mset (map Inr ys)"
  shows "mset xs = mset ys"
proof -
  from assms
  have "image_mset projr (mset (map (Inr :: 'b \<Rightarrow> 'a + 'b) xs)) =
        image_mset projr (mset (map (Inr :: 'b \<Rightarrow> 'a + 'b) ys))"
    by (rule arg_cong)
  then show ?thesis
    by (simp add: multiset.map_comp comp_def)
qed

lemma complete_runs_same:
  assumes "host (run body sched1 (main_start regions)) = EndOfStream"
    and "host (run body sched2 (main_start regions)) = EndOfStream"
  shows "mset (received (run body sched1 (main_start regions))) =
           mset (received (run body sched2 (main_start regions)))"
    and "mset (printed (run body sched1 (main_start regions))) =
           mset (printed (run body sched2 (main_start regions)))"
proof -
  have "mset (map (Inr :: Pricing \<Rightarrow> error + Pricing) (received (run body sched1 (main_start regions)))) =
        mset (map Inr (received (run body sched2 (main_start regions))))"
    by (rule trans [OF main_complete [OF assms(1)] sym [OF main_complete [OF assms(2)]]])
  then show r: "mset (received (run body sched1 (main_start regions))) =
           mset (received (run body sched2 (main_start regions)))"
    by (rule mset_Inr_eq)
  have "mset (filter (\<lambda>p. body p = Inr True) (received (run body sched1 (main_start regions)))) =
        mset (filter (\<lambda>p. body p = Inr True) (received (run body sched2 (main_start regions))))"
    using r by (simp only: mset_filter)
  then show "mset (printed (run body sched1 (main_start regions))) =
           mset (printed (run body sched2 (main_start regions)))"
    by (simp only: main_accepted)
qed


subsection \<open>Decoding\<close>


lemma from_dict_KeyError:
  assumes "data ''InstanceType'' = None \<or> data ''AvailabilityZoneId'' = None \<or>
           data ''SpotPrice'' = None"
  shows "\<exists>k\<in>{''InstanceType'', ''AvailabilityZoneId'', ''SpotPrice''}.
           data k = None \<and> from_dict data = Inl (KeyError k)"
  using assms by (auto simp: from_dict_def split: option.splits)

section \<open>The loop bodies: ceilings and acceptance\<close>

lemma body_gpu_classified:
  assumes "gpu_count p = Inr n" and "instance_family p = Inr fam"
  shows "body_gpu p =
           Inr (spot_price p \<le> (case fam of G5 \<Rightarrow> of_int n * 0.49 / 2.35 | G6E \<Rightarrow> of_int n * 0.49))"
  using assms
  by (cases fam)
     (simp_all add: body_gpu_def MAX_PRICE_PER_GPU_HOUR_def G6E_G5_PERF_RATIO_def ac_simps)

lemma body_gpu_True_iff:
  "body_gpu p = Inr True \<longleftrightarrow>
     (\<exists>n fam. gpu_count p = Inr n \<and> instance_family p = Inr fam \<and>
        spot_price p \<le> (case fam of G5 \<Rightarrow> of_int n * 0.49 / 2.35 | G6E \<Rightarrow> of_int n * 0.49))"
  by (auto simp: body_gpu_def Let_def MAX_PRICE_PER_GPU_HOUR_def G6E_G5_PERF_RATIO_def
      split: sum.splits InstanceFamily.splits)

lemma derived_g5_48xlarge:
  assumes "instance_type p = ''g5.48xlarge''"
  shows "gpu_count p = Inr 8" and "instance_family p = Inr G5"
  using assms
  by (simp_all add: gpu_count_def instance_size_def instance_family_def InstanceFamily_of_def)

lemmas run_eval = main_gpu_def main_cpu_def main_start_def create_memory_object_stream_def start_soon_def
  close_send_def query_region_step_def task_return_def task_raise_def cancel_scope_def receive_def
  from_dict_def float_eval body_cpu_def body_gpu_def gpu_count_def instance_size_def instance_family_def
  InstanceFamily_of_def MAX_PRICE_def MAX_PRICE_PER_GPU_HOUR_def G6E_G5_PERF_RATIO_def errors_def
  Let_def

text \<open>
  Claim C1. In the GPU script the ceiling of a record is its GPU count times 0.49, divided
  by 2.35 when the family is G5 and left as it is when the family is G6E, and the record
  is printed exactly when its spot price is at most that ceiling: for the loop body, for
  the host receiving the record, and for every record received in any run of \<open>main\<close>.
  A \<^verbatim>\<open>g5.48xlarge\<close> record has 8 GPUs, so that 1.60 is accepted and 1.70 is rejected.
\<close>

theorem gpu_ceiling_accept:
  "(gpu_count p = Inr n \<and> instance_family p = Inr fam \<longrightarrow>
      body_gpu p =
        Inr (spot_price p \<le> (case fam of G5 \<Rightarrow> of_int n * 0.49 / 2.35 | G6E \<Rightarrow> of_int n * 0.49)) \<and>
      printed (receive body_gpu p s) =
        (if spot_price p \<le> (case fam of G5 \<Rightarrow> of_int n * 0.49 / 2.35 | G6E \<Rightarrow> of_int n * 0.49)
         then printed s @ [p] else printed s)) \<and>
   (p \<in> set (printed (main_gpu sched regions)) \<longleftrightarrow>
      p \<in> set (received (main_gpu sched regions)) \<and>
      (\<exists>n fam. gpu_count p = Inr n \<and> instance_family p = Inr fam \<and>
         spot_price p \<le> (case fam of G5 \<Rightarrow> of_int n * 0.49 / 2.35 | G6E \<Rightarrow> of_int n * 0.49))) \<and>
   (instance_type p = ''g5.48xlarge'' \<longrightarrow>
      gpu_count p = Inr 8 \<and> instance_family p = Inr G5 \<and>
      (spot_price p = 1.60 \<longrightarrow> body_gpu p = Inr True) \<and>
      (spot_price p = 1.70 \<longrightarrow> body_gpu p = Inr False))"
proof (intro conjI impI)
  assume a: "gpu_count p = Inr n \<and> instance_family p = Inr fam"
  then show b: "body_gpu p =
      Inr (spot_price p \<le> (case fam of G5 \<Rightarrow> of_int n * 0.49 / 2.35 | G6E \<Rightarrow> of_int n * 0.49))"
    by (simp add: body_gpu_classified)
  show "printed (receive body_gpu p s) =
        (if spot_price p \<le> (case fam of G5 \<Rightarrow> of_int n * 0.49 / 2.35 | G6E \<Rightarrow> of_int n * 0.49)
         then printed s @ [p] else printed s)"
    by (simp add: receive_printed b)
next
  show "p \<in> set (printed (main_gpu sched regions)) \<longleftrightarrow>
      p \<in> set (received (main_gpu sched regions)) \<and>
      (\<exists>n fam. gpu_count p = Inr n \<and> instance_family p = Inr fam \<and>
         spot_price p \<le> (case fam of G5 \<Rightarrow> of_int n * 0.49 / 2.35 | G6E \<Rightarrow> of_int n * 0.49))"
    unfolding main_gpu_def main_accepted [of body_gpu] body_gpu_True_iff by auto
next
  assume t: "instance_type p = ''g5.48xlarge''"
  show "gpu_count p = Inr 8" "instance_family p = Inr G5"
    using t by (rule derived_g5_48xlarge)+
  { assume "spot_price p = 1.60"
    then show "body_gpu p = Inr True"
      by (simp add: body_gpu_classified [OF derived_g5_48xlarge [OF t]]) }
  { assume "spot_price p = 1.70"
    then show "body_gpu p = Inr False"
      by (simp add: body_gpu_classified [OF derived_g5_48xlarge [OF t]]) }
qed

theorem gpu_ceiling_accept_witness:
  "gpu_count \<lparr>instance_type = ''g5.48xlarge'', zone_id = ''use1-az1'', spot_price = 1.60\<rparr> = Inr 8 \<and>
   instance_family \<lparr>instance_type = ''g5.48xlarge'', zone_id = ''use1-az1'', spot_price = 1.60\<rparr> = Inr G5 \<and>
   body_gpu \<lparr>instance_type = ''g5.48xlarge'', zone_id = ''use1-az1'', spot_price = 1.60\<rparr> = Inr True \<and>
   \<lparr>instance_type = ''g5.48xlarge'', zone_id = ''use1-az1'', spot_price = 1.60\<rparr>
     \<in> set (printed (main_gpu [0, 0, 0, 0]
         [[Page [raw ''g5.48xlarge'' ''use1-az1'' ''1.60'', raw ''g5.48xlarge'' ''use1-az2'' ''1.70'']]])) \<and>
   body_gpu \<lparr>instance_type = ''g5.48xlarge'', zone_id = ''use1-az2'', spot_price = 1.70\<rparr> = Inr False \<and>
   \<lparr>instance_type = ''g5.48xlarge'', zone_id = ''use1-az2'', spot_price = 1.70\<rparr>
     \<notin> set (printed (main_gpu [0, 0, 0, 0]
         [[Page [raw ''g5.48xlarge'' ''use1-az1'' ''1.60'', raw ''g5.48xlarge'' ''use1-az2'' ''1.70'']]]))"
proof -
  let ?R = "[[Page [raw ''g5.48xlarge'' ''use1-az1'' ''1.60'', raw ''g5.48xlarge'' ''use1-az2'' ''1.70'']]]"
  let ?p = "\<lparr>instance_type = ''g5.48xlarge'', zone_id = ''use1-az1'', spot_price = 1.60\<rparr>"
  let ?q = "\<lparr>instance_type = ''g5.48xlarge'', zone_id = ''use1-az2'', spot_price = 1.70\<rparr>"
  have d: "gpu_count ?p = Inr 8" "instance_family ?p = Inr G5"
    "gpu_count ?q = Inr 8" "instance_family ?q = Inr G5"
    by (simp_all add: gpu_count_def instance_size_def instance_family_def InstanceFamily_of_def)
  have r: "received (main_gpu [0, 0, 0, 0] ?R) = [?p, ?q]"
    by (simp add: run_eval)
  show ?thesis
    using gpu_ceiling_accept [of ?p 8 G5 "main_start []" "[0, 0, 0, 0]" ?R]
      gpu_ceiling_accept [of ?q 8 G5 "main_start []" "[0, 0, 0, 0]" ?R] d r
    by simp
qed

text \<open>
  Claim C2. In the CPU script the ceiling is the constant 1.2 whatever the record is, the
  comparison is inclusive, and the records printed by a run are exactly the received ones
  priced at most 1.2: 1.00 and 1.2 are accepted, 1.25 is rejected.
\<close>

theorem cpu_flat_ceiling:
  "body_cpu p = Inr (spot_price p \<le> 1.2) \<and>
   printed (receive body_cpu p s) = (if spot_price p \<le> 1.2 then printed s @ [p] else printed s) \<and>
   printed (main_cpu sched regions) =
     filter (\<lambda>p. spot_price p \<le> 1.2) (received (main_cpu sched regions)) \<and>
   body_cpu \<lparr>instance_type = it, zone_id = z, spot_price = 1.00\<rparr> = Inr True \<and>
   body_cpu \<lparr>instance_type = it, zone_id = z, spot_price = 1.2\<rparr> = Inr True \<and>
   body_cpu \<lparr>instance_type = it, zone_id = z, spot_price = 1.25\<rparr> = Inr False"
  unfolding main_cpu_def main_accepted [of body_cpu]
  by (simp add: receive_printed body_cpu_def MAX_PRICE_def)

theorem cpu_flat_ceiling_witness:
  "printed (main_cpu [0, 0, 0, 0]
      [[Page [raw ''X.large'' ''use1-az1'' ''1.00'', raw ''X.large'' ''use1-az1'' ''1.25'']]]) =
     [\<lparr>instance_type = ''X.large'', zone_id = ''use1-az1'', spot_price = 1.00\<rparr>]"
proof -
  let ?R = "[[Page [raw ''X.large'' ''use1-az1'' ''1.00'', raw ''X.large'' ''use1-az1'' ''1.25'']]]"
  have "received (main_cpu [0, 0, 0, 0] ?R) =
      [\<lparr>instance_type = ''X.large'', zone_id = ''use1-az1'', spot_price = 1.00\<rparr>,
       \<lparr>instance_type = ''X.large'', zone_id = ''use1-az1'', spot_price = 1.25\<rparr>]"
    by (simp add: run_eval)
  with cpu_flat_ceiling [of "\<lparr>instance_type = ''X.large'', zone_id = ''use1-az1'', spot_price = 1.00\<rparr>"
      "main_start []" "[0, 0, 0, 0]" ?R] show ?thesis
    by simp
qed

section \<open>Unrecognised sizes and families\<close>

text \<open>
  Claim C3, as stated, fails: the look-up table is the one of the source, but the
  \<^verbatim>\<open>ValueError\<close> of an unlisted size is not confined to its record. Nothing catches it,
  so it leaves the receive loop and the task group cancels the fetch tasks: the record
  \<^verbatim>\<open>g5.xlarge\<close> that follows \<^verbatim>\<open>g5.3xlarge\<close> in the page is never received, although it
  is printed when it comes alone.
\<close>

theorem gpu_count_unrecognized_size_fatal:
  "gpu_count \<lparr>instance_type = ''g5.3xlarge'', zone_id = ''use1-az1'', spot_price = 0.10\<rparr> =
     Inl (ValueError ''g5.3xlarge'') \<and>
   host (main_gpu [0, 0, 0, 0]
      [[Page [raw ''g5.3xlarge'' ''use1-az1'' ''0.10'', raw ''g5.xlarge'' ''use1-az1'' ''0.10'']]]) =
     HostRaised (ValueError ''g5.3xlarge'') \<and>
   tasks (main_gpu [0, 0, 0, 0]
      [[Page [raw ''g5.3xlarge'' ''use1-az1'' ''0.10'', raw ''g5.xlarge'' ''use1-az1'' ''0.10'']]]) =
     [Cancelled] \<and>
   received (main_gpu [0, 0, 0, 0]
      [[Page [raw ''g5.3xlarge'' ''use1-az1'' ''0.10'', raw ''g5.xlarge'' ''use1-az1'' ''0.10'']]]) =
     [\<lparr>instance_type = ''g5.3xlarge'', zone_id = ''use1-az1'', spot_price = 0.10\<rparr>] \<and>
   printed (main_gpu [0, 0, 0, 0]
      [[Page [raw ''g5.3xlarge'' ''use1-az1'' ''0.10'', raw ''g5.xlarge'' ''use1-az1'' ''0.10'']]]) = [] \<and>
   printed (main_gpu [0, 0, 0, 0] [[Page [raw ''g5.xlarge'' ''use1-az1'' ''0.10'']]]) =
     [\<lparr>instance_type = ''g5.xlarge'', zone_id = ''use1-az1'', spot_price = 0.10\<rparr>]"
  by (simp add: run_eval)

text \<open>
  Claim C3, amended. For a record whose instance type has a second dot-delimited segment,
  \<open>gpu_count\<close> is 1 for the sizes xlarge, 2xlarge, 4xlarge, 8xlarge and 16xlarge, 4 for
  12xlarge and 24xlarge, 8 for 48xlarge, and raises \<^verbatim>\<open>ValueError\<close> with the instance type
  for any other size. That exception is not caught: the loop body raises it, the host
  leaves the loop with it without printing the record, no task stays active and no later
  step changes the state.
\<close>

theorem gpu_count_table:
  assumes "instance_size p = Inr sz"
  shows "(sz \<in> {''xlarge'', ''2xlarge'', ''4xlarge'', ''8xlarge'', ''16xlarge''} \<longrightarrow> gpu_count p = Inr 1) \<and>
         (sz \<in> {''12xlarge'', ''24xlarge''} \<longrightarrow> gpu_count p = Inr 4) \<and>
         (sz = ''48xlarge'' \<longrightarrow> gpu_count p = Inr 8) \<and>
         (sz \<notin> {''xlarge'', ''2xlarge'', ''4xlarge'', ''8xlarge'', ''16xlarge'',
                 ''12xlarge'', ''24xlarge'', ''48xlarge''} \<longrightarrow>
            gpu_count p = Inl (ValueError (instance_type p)) \<and>
            body_gpu p = Inl (ValueError (instance_type p)) \<and>
            host (receive body_gpu p s) = HostRaised (ValueError (instance_type p)) \<and>
            printed (receive body_gpu p s) = printed s \<and>
            (\<forall>t\<in>set (tasks (receive body_gpu p s)). \<not> is_Active t) \<and>
            run body_gpu sched (receive body_gpu p s) = receive body_gpu p s)"
proof (intro conjI impI)
  assume n: "sz \<notin> {''xlarge'', ''2xlarge'', ''4xlarge'', ''8xlarge'', ''16xlarge'',
                 ''12xlarge'', ''24xlarge'', ''48xlarge''}"
  with assms show g: "gpu_count p = Inl (ValueError (instance_type p))"
    by (simp add: gpu_count_def)
  then show b: "body_gpu p = Inl (ValueError (instance_type p))"
    by (simp add: body_gpu_def)
  note rr = receive_raises [where body = body_gpu and p = p and s = s, OF b]
  from rr show "host (receive body_gpu p s) = HostRaised (ValueError (instance_type p))"
    by simp
  show "printed (receive body_gpu p s) = printed s"
    by (simp add: receive_printed b)
  show na: "\<forall>t\<in>set (tasks (receive body_gpu p s)). \<not> is_Active t"
    using rr not_active_cancel [of "tasks s"] by metis
  then show "run body_gpu sched (receive body_gpu p s) = receive body_gpu p s"
    by (rule run_idle)
qed (use assms in \<open>auto simp: gpu_count_def\<close>)

theorem gpu_count_table_witness:
  "instance_size \<lparr>instance_type = ''g6e.24xlarge'', zone_id = ''use1-az1'', spot_price = 0.10\<rparr> = Inr ''24xlarge'' \<and>
   gpu_count \<lparr>instance_type = ''g6e.24xlarge'', zone_id = ''use1-az1'', spot_price = 0.10\<rparr> = Inr 4 \<and>
   instance_size \<lparr>instance_type = ''g5.metal'', zone_id = ''use1-az1'', spot_price = 0.10\<rparr> = Inr ''metal'' \<and>
   gpu_count \<lparr>instance_type = ''g5.metal'', zone_id = ''use1-az1'', spot_price = 0.10\<rparr> =
     Inl (ValueError ''g5.metal'') \<and>
   host (receive body_gpu \<lparr>instance_type = ''g5.metal'', zone_id = ''use1-az1'', spot_price = 0.10\<rparr>
          (main_start [[]])) = HostRaised (ValueError ''g5.metal'')"
proof -
  have a: "instance_size \<lparr>instance_type = ''g6e.24xlarge'', zone_id = ''use1-az1'', spot_price = 0.10\<rparr> = Inr ''24xlarge''"
    and b: "instance_size \<lparr>instance_type = ''g5.metal'', zone_id = ''use1-az1'', spot_price = 0.10\<rparr> = Inr ''metal''"
    by (simp_all add: instance_size_def)
  show ?thesis
    using gpu_count_table [OF a, of "main_start [[]]" "[]"] gpu_count_table [OF b, of "main_start [[]]" "[]"] a b
    by simp
qed

text \<open>
  Claim C4, as stated, fails on the spec's own scenario: the record \<^verbatim>\<open>X.weird\<close> makes the
  loop body raise \<^verbatim>\<open>ValueError\<close>, the run ends with that exception, both fetch tasks are
  cancelled, and the record of the second region, which is printed when the first region
  is empty, is never printed.
\<close>

theorem unrecognized_record_crashes_run:
  "body_gpu \<lparr>instance_type = ''X.weird'', zone_id = ''use1-az1'', spot_price = 0.30\<rparr> =
     Inl (ValueError ''X.weird'') \<and>
   host (main_gpu [0, 0, 1, 1, 1]
      [[Page [raw ''X.weird'' ''use1-az1'' ''0.30'']], [Page [raw ''g6e.xlarge'' ''usw2-az1'' ''0.30'']]]) =
     HostRaised (ValueError ''X.weird'') \<and>
   errors (main_gpu [0, 0, 1, 1, 1]
      [[Page [raw ''X.weird'' ''use1-az1'' ''0.30'']], [Page [raw ''g6e.xlarge'' ''usw2-az1'' ''0.30'']]]) =
     [ValueError ''X.weird''] \<and>
   tasks (main_gpu [0, 0, 1, 1, 1]
      [[Page [raw ''X.weird'' ''use1-az1'' ''0.30'']], [Page [raw ''g6e.xlarge'' ''usw2-az1'' ''0.30'']]]) =
     [Cancelled, Cancelled] \<and>
   printed (main_gpu [0, 0, 1, 1, 1]
      [[Page [raw ''X.weird'' ''use1-az1'' ''0.30'']], [Page [raw ''g6e.xlarge'' ''usw2-az1'' ''0.30'']]]) = [] \<and>
   printed (main_gpu [1, 1, 1] [[], [Page [raw ''g6e.xlarge'' ''usw2-az1'' ''0.30'']]]) =
     [\<lparr>instance_type = ''g6e.xlarge'', zone_id = ''usw2-az1'', spot_price = 0.30\<rparr>]"
  by (simp add: run_eval)

text \<open>
  Claim C4, amended. In every run of the GPU script, when the host receives a record
  whose \<open>gpu_count\<close> raises, or whose \<open>gpu_count\<close> is defined and whose
  \<open>instance_family\<close> raises, the record is not printed, the host leaves the loop with
  that exception, which is the one exception that leaves \<^verbatim>\<open>main\<close>, no task stays active,
  and whatever the scheduler does afterwards the state stays as it is: no further record
  is received or printed.
\<close>

theorem classification_error_ends_run:
  assumes "i < length (tasks (main_gpu sched regions))"
    and "tasks (main_gpu sched regions) ! i = Active (d # ds) fs"
    and "from_dict d = Inr p"
    and "gpu_count p = Inl e \<or> (\<exists>n. gpu_count p = Inr n) \<and> instance_family p = Inl e"
  shows "host (main_gpu (sched @ [i]) regions) = HostRaised e \<and>
         errors (main_gpu (sched @ [i]) regions) = [e] \<and>
         received (main_gpu (sched @ [i]) regions) = received (main_gpu sched regions) @ [p] \<and>
         printed (main_gpu (sched @ [i]) regions) = printed (main_gpu sched regions) \<and>
         (\<forall>t\<in>set (tasks (main_gpu (sched @ [i]) regions)). \<not> is_Active t) \<and>
         (\<forall>sched'. main_gpu (sched @ i # sched') regions = main_gpu (sched @ [i]) regions)"
proof -
  from assms(4) have "body_gpu p = Inl e"
    by (auto simp: body_gpu_def)
  with assms(1-3) show ?thesis
    unfolding main_gpu_def by (rule main_body_raises)
qed

theorem classification_error_ends_run_witness:
  "host (main_gpu ([0] @ [0])
      [[Page [raw ''g7.xlarge'' ''use1-az1'' ''0.30'', raw ''g6e.xlarge'' ''use1-az1'' ''0.30'']]]) =
     HostRaised (ValueError ''g7'') \<and>
   printed (main_gpu ([0] @ 0 # [0, 0])
      [[Page [raw ''g7.xlarge'' ''use1-az1'' ''0.30'', raw ''g6e.xlarge'' ''use1-az1'' ''0.30'']]]) = []"
proof -
  let ?R = "[[Page [raw ''g7.xlarge'' ''use1-az1'' ''0.30'', raw ''g6e.xlarge'' ''use1-az1'' ''0.30'']]]"
  let ?p = "\<lparr>instance_type = ''g7.xlarge'', zone_id = ''use1-az1'', spot_price = 0.30\<rparr>"
  have t: "tasks (main_gpu [0] ?R) =
      [Active [raw ''g7.xlarge'' ''use1-az1'' ''0.30'', raw ''g6e.xlarge'' ''use1-az1'' ''0.30''] []]"
    and pr: "printed (main_gpu [0] ?R) = []"
    by (simp_all add: run_eval)
  have 1: "0 < length (tasks (main_gpu [0] ?R))"
    and 2: "tasks (main_gpu [0] ?R) ! 0 =
      Active (raw ''g7.xlarge'' ''use1-az1'' ''0.30'' # [raw ''g6e.xlarge'' ''use1-az1'' ''0.30'']) []"
    by (simp_all add: t)
  have 3: "from_dict (raw ''g7.xlarge'' ''use1-az1'' ''0.30'') = Inr ?p"
    by (simp add: from_dict_def float_eval)
  have 4: "gpu_count ?p = Inl (ValueError ''g7'') \<or>
      (\<exists>n. gpu_count ?p = Inr n) \<and> instance_family ?p = Inl (ValueError ''g7'')"
    by (simp add: gpu_count_def instance_size_def instance_family_def InstanceFamily_of_def)
  note th = classification_error_ends_run [OF 1 2 3 4]
  from th have e: "main_gpu ([0] @ 0 # [0, 0]) ?R = main_gpu ([0] @ [0]) ?R"
    by blast
  from th have "host (main_gpu ([0] @ [0]) ?R) = HostRaised (ValueError ''g7'')"
    and "printed (main_gpu ([0] @ [0]) ?R) = printed (main_gpu [0] ?R)"
    by blast+
  with pr show ?thesis
    unfolding e by simp
qed

section \<open>Failures of a fetch task\<close>

text \<open>
  Claim C5, as stated, fails: region 0 delivers a page and then its paginator raises; the
  task group cancels the task of region 1, whose record is never printed (it is, when
  region 0 is empty), and the exception leaves \<^verbatim>\<open>main\<close>.
\<close>

theorem failing_region_cancels_healthy_region:
  "tasks (main_cpu [0, 0, 0, 1, 1, 1]
      [[Page [raw ''c8g.48xlarge'' ''use1-az1'' ''1.00''], FetchFails],
       [Page [raw ''c8g.48xlarge'' ''usw2-az1'' ''1.10'']]]) = [Raised FetchError, Cancelled] \<and>
   host (main_cpu [0, 0, 0, 1, 1, 1]
      [[Page [raw ''c8g.48xlarge'' ''use1-az1'' ''1.00''], FetchFails],
       [Page [raw ''c8g.48xlarge'' ''usw2-az1'' ''1.10'']]]) = HostCancelled \<and>
   errors (main_cpu [0, 0, 0, 1, 1, 1]
      [[Page [raw ''c8g.48xlarge'' ''use1-az1'' ''1.00''], FetchFails],
       [Page [raw ''c8g.48xlarge'' ''usw2-az1'' ''1.10'']]]) = [FetchError] \<and>
   printed (main_cpu [0, 0, 0, 1, 1, 1]
      [[Page [raw ''c8g.48xlarge'' ''use1-az1'' ''1.00''], FetchFails],
       [Page [raw ''c8g.48xlarge'' ''usw2-az1'' ''1.10'']]]) =
     [\<lparr>instance_type = ''c8g.48xlarge'', zone_id = ''use1-az1'', spot_price = 1.00\<rparr>] \<and>
   printed (main_cpu [1, 1, 1] [[], [Page [raw ''c8g.48xlarge'' ''usw2-az1'' ''1.10'']]]) =
     [\<lparr>instance_type = ''c8g.48xlarge'', zone_id = ''usw2-az1'', spot_price = 1.10\<rparr>]"
  by (simp add: run_eval)

text \<open>
  Claim C5, amended. In every run of either script, when the paginator of a region
  raises, the region's task ends with that exception, every other task still active is
  cancelled, the host is stopped, what was received and printed before stays, the
  exception is the one that leaves \<^verbatim>\<open>main\<close>, and whatever the scheduler does afterwards
  the state stays as it is: the records the other regions had not yet sent are lost. No
  list of warnings exists.
\<close>

theorem fetch_error_cancels_run:
  assumes "i < length (tasks (run body sched (main_start regions)))"
    and "tasks (run body sched (main_start regions)) ! i = Active [] (FetchFails # fs)"
  shows "host (run body (sched @ [i]) (main_start regions)) = HostCancelled \<and>
         errors (run body (sched @ [i]) (main_start regions)) = [FetchError] \<and>
         tasks (run body (sched @ [i]) (main_start regions)) =
           map (\<lambda>t. if is_Active t then Cancelled else t)
             ((tasks (run body sched (main_start regions)))[i := Raised FetchError]) \<and>
         received (run body (sched @ [i]) (main_start regions)) =
           received (run body sched (main_start regions)) \<and>
         printed (run body (sched @ [i]) (main_start regions)) =
           printed (run body sched (main_start regions)) \<and>
         (\<forall>sched'. run body (sched @ i # sched') (main_start regions) =
            run body (sched @ [i]) (main_start regions))"
proof (rule main_task_raises [OF assms(1)])
  show "is_Active (tasks (run body sched (main_start regions)) ! i)"
    using assms(2) by simp
  show "query_region_step body i (run body sched (main_start regions)) =
      task_raise FetchError i (run body sched (main_start regions))"
    using assms by (rule step_fetch_fails)
qed

theorem fetch_error_cancels_run_witness:
  "host (run body_gpu ([1] @ [0])
      (main_start [[FetchFails], [Page [raw ''g5.xlarge'' ''usw2-az1'' ''0.10'']]])) = HostCancelled \<and>
   tasks (run body_gpu ([1] @ [0])
      (main_start [[FetchFails], [Page [raw ''g5.xlarge'' ''usw2-az1'' ''0.10'']]])) =
     [Raised FetchError, Cancelled] \<and>
   printed (run body_gpu ([1] @ 0 # [1, 1])
      (main_start [[FetchFails], [Page [raw ''g5.xlarge'' ''usw2-az1'' ''0.10'']]])) = []"
proof -
  let ?R = "[[FetchFails], [Page [raw ''g5.xlarge'' ''usw2-az1'' ''0.10'']]]"
  have t: "tasks (run body_gpu [1] (main_start ?R)) =
      [Active [] [FetchFails], Active [raw ''g5.xlarge'' ''usw2-az1'' ''0.10''] []]"
    and pr: "printed (run body_gpu [1] (main_start ?R)) = []"
    by (simp_all add: run_eval)
  have 1: "0 < length (tasks (run body_gpu [1] (main_start ?R)))"
    and 2: "tasks (run body_gpu [1] (main_start ?R)) ! 0 = Active [] (FetchFails # [])"
    unfolding t by simp_all
  note th = fetch_error_cancels_run [OF 1 2]
  from th have e: "run body_gpu ([1] @ 0 # [1, 1]) (main_start ?R) =
      run body_gpu ([1] @ [0]) (main_start ?R)"
    by blast
  from th have "host (run body_gpu ([1] @ [0]) (main_start ?R)) = HostCancelled"
    and "tasks (run body_gpu ([1] @ [0]) (main_start ?R)) =
           map (\<lambda>t. if is_Active t then Cancelled else t)
             ((tasks (run body_gpu [1] (main_start ?R)))[0 := Raised FetchError])"
    and "printed (run body_gpu ([1] @ [0]) (main_start ?R)) = printed (run body_gpu [1] (main_start ?R))"
    by blast+
  with pr t show ?thesis
    unfolding e by simp
qed



section \<open>Decoding raw records\<close>




text \<open>
  Claim C8, as stated, fails: the second raw record of the page has no \<^verbatim>\<open>SpotPrice\<close>;
  the first record has been sent and printed, the \<^verbatim>\<open>KeyError\<close> of the second ends the
  task and the run, and the third record of the page and the record of the other region
  are never printed.
\<close>

theorem missing_field_aborts_page:
  "from_dict [''InstanceType'' \<mapsto> ''c8g.48xlarge'', ''AvailabilityZoneId'' \<mapsto> ''use1-az2''] =
     Inl (KeyError ''SpotPrice'') \<and>
   host (main_cpu [0, 0, 0, 0, 0, 1, 1, 1]
      [[Page [raw ''c8g.48xlarge'' ''use1-az1'' ''1.00'',
              [''InstanceType'' \<mapsto> ''c8g.48xlarge'', ''AvailabilityZoneId'' \<mapsto> ''use1-az2''],
              raw ''c8g.48xlarge'' ''use1-az3'' ''1.10'']],
       [Page [raw ''c8g.48xlarge'' ''usw2-az1'' ''1.15'']]]) = HostCancelled \<and>
   errors (main_cpu [0, 0, 0, 0, 0, 1, 1, 1]
      [[Page [raw ''c8g.48xlarge'' ''use1-az1'' ''1.00'',
              [''InstanceType'' \<mapsto> ''c8g.48xlarge'', ''AvailabilityZoneId'' \<mapsto> ''use1-az2''],
              raw ''c8g.48xlarge'' ''use1-az3'' ''1.10'']],
       [Page [raw ''c8g.48xlarge'' ''usw2-az1'' ''1.15'']]]) = [KeyError ''SpotPrice''] \<and>
   tasks (main_cpu [0, 0, 0, 0, 0, 1, 1, 1]
      [[Page [raw ''c8g.48xlarge'' ''use1-az1'' ''1.00'',
              [''InstanceType'' \<mapsto> ''c8g.48xlarge'', ''AvailabilityZoneId'' \<mapsto> ''use1-az2''],
              raw ''c8g.48xlarge'' ''use1-az3'' ''1.10'']],
       [Page [raw ''c8g.48xlarge'' ''usw2-az1'' ''1.15'']]]) = [Raised (KeyError ''SpotPrice''), Cancelled] \<and>
   printed (main_cpu [0, 0, 0, 0, 0, 1, 1, 1]
      [[Page [raw ''c8g.48xlarge'' ''use1-az1'' ''1.00'',
              [''InstanceType'' \<mapsto> ''c8g.48xlarge'', ''AvailabilityZoneId'' \<mapsto> ''use1-az2''],
              raw ''c8g.48xlarge'' ''use1-az3'' ''1.10'']],
       [Page [raw ''c8g.48xlarge'' ''usw2-az1'' ''1.15'']]]) =
     [\<lparr>instance_type = ''c8g.48xlarge'', zone_id = ''use1-az1'', spot_price = 1.00\<rparr>] \<and>
   printed (main_cpu [0, 0, 0, 0]
      [[Page [raw ''c8g.48xlarge'' ''use1-az1'' ''1.00'',
              raw ''c8g.48xlarge'' ''use1-az3'' ''1.10'']]]) =
     [\<lparr>instance_type = ''c8g.48xlarge'', zone_id = ''use1-az1'', spot_price = 1.00\<rparr>,
      \<lparr>instance_type = ''c8g.48xlarge'', zone_id = ''use1-az3'', spot_price = 1.10\<rparr>]"
  by (simp add: run_eval)

text \<open>
  Claim C8, amended. When one of the three fields is absent from a raw record,
  \<open>from_dict\<close> raises \<^verbatim>\<open>KeyError\<close> for an absent field, and in every run of either script
  that exception ends the region's task and the run: the host is stopped, the exception
  is the one that leaves \<^verbatim>\<open>main\<close>, what was received and printed before stays, no task
  stays active, and no later step changes the state, so that the remaining records of the
  page are not decoded.
\<close>

theorem from_dict_missing_field:
  assumes "data ''InstanceType'' = None \<or> data ''AvailabilityZoneId'' = None \<or>
           data ''SpotPrice'' = None"
  shows "\<exists>k\<in>{''InstanceType'', ''AvailabilityZoneId'', ''SpotPrice''}.
           data k = None \<and> from_dict data = Inl (KeyError k) \<and>
           (i < length (tasks (run body sched (main_start regions))) \<and>
            tasks (run body sched (main_start regions)) ! i = Active (data # ds) fs \<longrightarrow>
              host (run body (sched @ [i]) (main_start regions)) = HostCancelled \<and>
              errors (run body (sched @ [i]) (main_start regions)) = [KeyError k] \<and>
              received (run body (sched @ [i]) (main_start regions)) =
                received (run body sched (main_start regions)) \<and>
              printed (run body (sched @ [i]) (main_start regions)) =
                printed (run body sched (main_start regions)) \<and>
              (\<forall>t\<in>set (tasks (run body (sched @ [i]) (main_start regions))). \<not> is_Active t) \<and>
              (\<forall>sched'. run body (sched @ i # sched') (main_start regions) =
                 run body (sched @ [i]) (main_start regions)))"
proof -
  from from_dict_KeyError [OF assms] obtain k
    where k: "k \<in> {''InstanceType'', ''AvailabilityZoneId'', ''SpotPrice''}" "data k = None"
      and f: "from_dict data = Inl (KeyError k)"
    by blast
  have "host (run body (sched @ [i]) (main_start regions)) = HostCancelled \<and>
        errors (run body (sched @ [i]) (main_start regions)) = [KeyError k] \<and>
        received (run body (sched @ [i]) (main_start regions)) =
          received (run body sched (main_start regions)) \<and>
        printed (run body (sched @ [i]) (main_start regions)) =
          printed (run body sched (main_start regions)) \<and>
        (\<forall>t\<in>set (tasks (run body (sched @ [i]) (main_start regions))). \<not> is_Active t) \<and>
        (\<forall>sched'. run body (sched @ i # sched') (main_start regions) =
           run body (sched @ [i]) (main_start regions))"
    if a: "i < length (tasks (run body sched (main_start regions))) \<and>
           tasks (run body sched (main_start regions)) ! i = Active (data # ds) fs"
  proof -
    from a f have st: "query_region_step body i (run body sched (main_start regions)) =
        task_raise (KeyError k) i (run body sched (main_start regions))"
      by (intro step_decode_raises) simp_all
    from a have ac: "is_Active (tasks (run body sched (main_start regions)) ! i)" by simp
    note th = main_task_raises [OF conjunct1 [OF a] ac st]
    from th have "tasks (run body (sched @ [i]) (main_start regions)) =
        map (\<lambda>t. if is_Active t then Cancelled else t)
          ((tasks (run body sched (main_start regions)))[i := Raised (KeyError k)])"
      by blast
    then have "\<forall>t\<in>set (tasks (run body (sched @ [i]) (main_start regions))). \<not> is_Active t"
      using not_active_cancel by metis
    with th show ?thesis by blast
  qed
  with k f show ?thesis by blast
qed

theorem from_dict_missing_field_witness:
  "from_dict [''InstanceType'' \<mapsto> ''g5.xlarge'', ''SpotPrice'' \<mapsto> ''0.10''] =
     Inl (KeyError ''AvailabilityZoneId'') \<and>
   errors (run body_gpu ([0] @ [0])
      (main_start [[Page [[''InstanceType'' \<mapsto> ''g5.xlarge'', ''SpotPrice'' \<mapsto> ''0.10'']]]])) =
     [KeyError ''AvailabilityZoneId'']"
proof -
  let ?d = "[''InstanceType'' \<mapsto> ''g5.xlarge'', ''SpotPrice'' \<mapsto> ''0.10'']"
  let ?R = "[[Page [?d]]]"
  have m: "?d ''InstanceType'' = None \<or> ?d ''AvailabilityZoneId'' = None \<or> ?d ''SpotPrice'' = None"
    by simp
  have t: "0 < length (tasks (run body_gpu [0] (main_start ?R))) \<and>
      tasks (run body_gpu [0] (main_start ?R)) ! 0 = Active (?d # []) []"
    by (simp add: run_eval)
  from from_dict_missing_field [OF m, where i = 0 and body = body_gpu and sched = "[0]"
      and regions = ?R and ds = "[]" and fs = "[]"] obtain k
    where k: "?d k = None" "from_dict ?d = Inl (KeyError k)"
      and r: "0 < length (tasks (run body_gpu [0] (main_start ?R))) \<and>
        tasks (run body_gpu [0] (main_start ?R)) ! 0 = Active (?d # []) [] \<longrightarrow>
        errors (run body_gpu ([0] @ [0]) (main_start ?R)) = [KeyError k]"
      and "k \<in> {''InstanceType'', ''AvailabilityZoneId'', ''SpotPrice''}"
    by blast
  then have "k = ''AvailabilityZoneId''" by (auto split: if_splits)
  with k r t show ?thesis by blast
qed

section \<open>Interleavings\<close>

text \<open>
  Claim C9, as stated, fails for the GPU script: with the same two regions, the run that
  serves region 0 first prints its record before the record \<^verbatim>\<open>g5.weird\<close> of region 1
  makes the loop body raise, and the run that serves region 1 first prints nothing.
\<close>

theorem gpu_accepted_depends_on_interleaving:
  "printed (main_gpu [0, 0, 0, 1, 1, 1]
      [[Page [raw ''g5.xlarge'' ''use1-az1'' ''0.10'']],
       [Page [raw ''g5.weird'' ''usw2-az1'' ''0.10'']]]) =
     [\<lparr>instance_type = ''g5.xlarge'', zone_id = ''use1-az1'', spot_price = 0.10\<rparr>] \<and>
   printed (main_gpu [1, 1, 1, 0, 0, 0]
      [[Page [raw ''g5.xlarge'' ''use1-az1'' ''0.10'']],
       [Page [raw ''g5.weird'' ''usw2-az1'' ''0.10'']]]) = [] \<and>
   mset (printed (main_gpu [0, 0, 0, 1, 1, 1]
      [[Page [raw ''g5.xlarge'' ''use1-az1'' ''0.10'']],
       [Page [raw ''g5.weird'' ''usw2-az1'' ''0.10'']]])) \<noteq>
   mset (printed (main_gpu [1, 1, 1, 0, 0, 0]
      [[Page [raw ''g5.xlarge'' ''use1-az1'' ''0.10'']],
       [Page [raw ''g5.weird'' ''usw2-az1'' ''0.10'']]]))"
  by (simp add: run_eval)

text \<open>
  Claim C9, amended. For either script, any two runs over the same regions that both reach
  the end of the stream (no fetch, no decoding and no loop body has raised) have received
  the same multiset of records and have printed the same multiset of records, whatever
  the two schedules are.
\<close>

theorem complete_runs_accept_same_records:
  "(host (main_cpu sched1 regions) = EndOfStream \<and> host (main_cpu sched2 regions) = EndOfStream \<longrightarrow>
      mset (received (main_cpu sched1 regions)) = mset (received (main_cpu sched2 regions)) \<and>
      mset (printed (main_cpu sched1 regions)) = mset (printed (main_cpu sched2 regions))) \<and>
   (host (main_gpu sched1 regions) = EndOfStream \<and> host (main_gpu sched2 regions) = EndOfStream \<longrightarrow>
      mset (received (main_gpu sched1 regions)) = mset (received (main_gpu sched2 regions)) \<and>
      mset (printed (main_gpu sched1 regions)) = mset (printed (main_gpu sched2 regions)))"
  unfolding main_cpu_def main_gpu_def
  using complete_runs_same [of body_cpu sched1 regions sched2]
    complete_runs_same [of body_gpu sched1 regions sched2]
  by blast

theorem complete_runs_accept_same_records_witness:
  "host (main_cpu [0, 0, 0, 1, 1, 1]
      [[Page [raw ''c8g.48xlarge'' ''use1-az1'' ''1.00'']],
       [Page [raw ''c8g.48xlarge'' ''usw2-az1'' ''1.10'']]]) = EndOfStream \<and>
   host (main_cpu [1, 0, 1, 0, 1, 0]
      [[Page [raw ''c8g.48xlarge'' ''use1-az1'' ''1.00'']],
       [Page [raw ''c8g.48xlarge'' ''usw2-az1'' ''1.10'']]]) = EndOfStream \<and>
   printed (main_cpu [0, 0, 0, 1, 1, 1]
      [[Page [raw ''c8g.48xlarge'' ''use1-az1'' ''1.00'']],
       [Page [raw ''c8g.48xlarge'' ''usw2-az1'' ''1.10'']]]) \<noteq>
   printed (main_cpu [1, 0, 1, 0, 1, 0]
      [[Page [raw ''c8g.48xlarge'' ''use1-az1'' ''1.00'']],
       [Page [raw ''c8g.48xlarge'' ''usw2-az1'' ''1.10'']]]) \<and>
   mset (printed (main_cpu [0, 0, 0, 1, 1, 1]
      [[Page [raw ''c8g.48xlarge'' ''use1-az1'' ''1.00'']],
       [Page [raw ''c8g.48xlarge'' ''usw2-az1'' ''1.10'']]])) =
   mset (printed (main_cpu [1, 0, 1, 0, 1, 0]
      [[Page [raw ''c8g.48xlarge'' ''use1-az1'' ''1.00'']],
       [Page [raw ''c8g.48xlarge'' ''usw2-az1'' ''1.10'']]]))"
proof -
  let ?R = "[[Page [raw ''c8g.48xlarge'' ''use1-az1'' ''1.00'']],
       [Page [raw ''c8g.48xlarge'' ''usw2-az1'' ''1.10'']]]"
  have h: "host (main_cpu [0, 0, 0, 1, 1, 1] ?R) = EndOfStream \<and>
           host (main_cpu [1, 0, 1, 0, 1, 0] ?R) = EndOfStream"
    by (simp add: run_eval)
  have n: "printed (main_cpu [0, 0, 0, 1, 1, 1] ?R) \<noteq> printed (main_cpu [1, 0, 1, 0, 1, 0] ?R)"
    by (simp add: run_eval)
  from complete_runs_accept_same_records [of "[0, 0, 0, 1, 1, 1]" ?R "[1, 0, 1, 0, 1, 0]"] h n
  show ?thesis by blast
qed

section \<open>Instance types without a dot\<close>

text \<open>
  Claim C10. An instance type without a dot has no second segment: \<open>instance_size\<close>
  raises \<^verbatim>\<open>IndexError\<close>, and so do \<open>gpu_count\<close> and the loop body, before the
  look-up of the size and its \<^verbatim>\<open>ValueError\<close> are reached.
\<close>

theorem instance_size_no_dot:
  assumes "CHR ''.'' \<notin> set (instance_type p)"
  shows "instance_size p = Inl IndexError \<and> gpu_count p = Inl IndexError \<and>
         gpu_count p \<noteq> Inl (ValueError (instance_type p)) \<and> body_gpu p = Inl IndexError"
  using assms by (simp add: instance_size_def gpu_count_def body_gpu_def str_split_no_sep)

theorem instance_size_no_dot_witness:
  "CHR ''.'' \<notin> set ''g5xlarge'' \<and>
   instance_size \<lparr>instance_type = ''g5xlarge'', zone_id = ''use1-az1'', spot_price = 0.1\<rparr> = Inl IndexError \<and>
   gpu_count \<lparr>instance_type = ''g5xlarge'', zone_id = ''use1-az1'', spot_price = 0.1\<rparr> = Inl IndexError"
  using instance_size_no_dot [of "\<lparr>instance_type = ''g5xlarge'', zone_id = ''use1-az1'', spot_price = 0.1\<rparr>"]
  by simp

end
